theory Spec2Isabelle
  imports Main
begin

section \<open>The roulette skill of the bot: \<^verbatim>\<open>bot/skills/roll.py\<close>\<close>

text \<open>
  The module keeps three pieces of state: the \<^verbatim>\<open>hussars\<close> collection of the
  document store (one document per player), the per-chat dictionary
  \<^verbatim>\<open>context.chat_data\<close> (its only key is \<^verbatim>\<open>"barrel"\<close>), and the module-level
  \<^verbatim>\<open>barrel_lock\<close>. Its inputs from outside are the random number generator
  (\<^verbatim>\<open>randint\<close>) and the wall clock (\<^verbatim>\<open>datetime.now()\<close>); its outputs are the
  messages it sends and the mute it requests.

  Python integers are \<open>int\<close>. A Python \<^verbatim>\<open>str\<close> is a sequence of code
  points, so it is modelled as a list of code points (\<open>nat\<close>). Every exception the
  code can raise is a value of \<open>py_error\<close>.
\<close>

subsection \<open>Module constants\<close>

definition MUTE_MINUTES :: int where
  "MUTE_MINUTES = 16 * 60"

definition NUM_BULLETS :: int where
  "NUM_BULLETS = 6"

text \<open>
  \<^verbatim>\<open>NUM_BULLETS\<close> is a module global. The functions that read it take its value as
  their first argument \<open>nb\<close>; the program runs them at \<open>nb = NUM_BULLETS\<close>.
\<close>

subsection \<open>Python values\<close>

datatype py_error = IndexError | ValueError | DuplicateKeyError

type_synonym str = "nat list"

definition ascii :: "string \<Rightarrow> str" where
  "ascii s = map of_char s"

text \<open>\<^verbatim>\<open>[x] * n\<close>: the list of \<open>n\<close> copies of \<open>x\<close>, empty when \<open>n \<le> 0\<close>.\<close>

definition list_repeat :: "'a \<Rightarrow> int \<Rightarrow> 'a list" where
  "list_repeat x n = replicate (nat n) x"

text \<open>
  A subscript \<open>i\<close> on a list of \<open>len\<close> items: \<open>0 \<dots> len - 1\<close> count from the
  front, \<open>-len \<dots> -1\<close> from the back, and anything else is out of range.
\<close>

definition norm_index :: "nat \<Rightarrow> int \<Rightarrow> nat option" where
  "norm_index len i =
     (if 0 \<le> i \<and> i < int len then Some (nat i)
      else if - int len \<le> i \<and> i < 0 then Some (nat (int len + i))
      else None)"

text \<open>\<^verbatim>\<open>xs[i]\<close> and \<^verbatim>\<open>xs[i] = v\<close>; both raise \<^verbatim>\<open>IndexError\<close> out of range.\<close>

definition list_getitem :: "'a list \<Rightarrow> int \<Rightarrow> py_error + 'a" where
  "list_getitem xs i =
     (case norm_index (length xs) i of
        None \<Rightarrow> Inl IndexError
      | Some p \<Rightarrow> Inr (xs ! p))"

definition list_setitem :: "'a list \<Rightarrow> int \<Rightarrow> 'a \<Rightarrow> py_error + 'a list" where
  "list_setitem xs i v =
     (case norm_index (length xs) i of
        None \<Rightarrow> Inl IndexError
      | Some p \<Rightarrow> Inr (xs[p := v]))"

text \<open>\<^verbatim>\<open>xs.pop()\<close>: removes and returns the last item; raises on the empty list.\<close>

definition list_pop :: "'a list \<Rightarrow> py_error + ('a \<times> 'a list)" where
  "list_pop xs = (if xs = [] then Inl IndexError else Inr (last xs, butlast xs))"

text \<open>\<^verbatim>\<open>str(n)\<close> for an integer: its decimal digits, with a minus sign when negative.\<close>

fun digits :: "nat \<Rightarrow> str" where
  "digits n = (if n < 10 then [48 + n] else digits (n div 10) @ [48 + n mod 10])"

definition str_of_int :: "int \<Rightarrow> str" where
  "str_of_int i = (if i < 0 then 45 # digits (nat (- i)) else digits (nat i))"

subsection \<open>The world the handlers run in\<close>

text \<open>
  A Telegram user as far as the module reads it: \<^verbatim>\<open>user.id\<close>,
  \<^verbatim>\<open>user.full_name\<close> and \<^verbatim>\<open>user.to_dict()\<close>, the last one an opaque
  dictionary that the module only stores.
\<close>

type_synonym user_dict = "(string \<times> string) list"

record tg_user =
  user_id :: int
  full_name :: str
  to_dict :: user_dict

text \<open>A hussar document; its \<^verbatim>\<open>_id\<close> is the key it is stored under.\<close>

record hussar =
  meta :: user_dict
  shot_counter :: int
  miss_counter :: int
  dead_counter :: int
  total_time_in_club :: int
  first_shot :: nat
  last_shot :: nat

type_synonym collection = "int \<rightharpoonup> hussar"

text \<open>What a handler asks the chat platform to do.\<close>

datatype action =
    SendMessage int str
  | MuteUser int int int

text \<open>
  \<open>chat_data\<close> maps a chat id to the value under \<^verbatim>\<open>"barrel"\<close> in that chat's
  dictionary (\<open>None\<close>: the key is absent). \<open>entropy\<close> is the sequence of raw
  values the random number generator will produce and \<open>draws\<close> counts how many of
  them have been consumed. \<open>outbox\<close> lists the actions requested so far, oldest
  first.
\<close>

record world =
  coll :: collection
  chat_data :: "int \<rightharpoonup> bool list"
  entropy :: "nat \<Rightarrow> nat"
  draws :: nat
  outbox :: "action list"

text \<open>
  A stateful function returns its result, or the exception it raised, together with the
  world as it is at that moment: what was written before an exception stays written.

  \<^verbatim>\<open>randint(a, b)\<close>: an integer in \<open>[a, b]\<close>, taken from the next raw value;
  \<^verbatim>\<open>ValueError\<close> on an empty range.
\<close>

definition randint :: "int \<Rightarrow> int \<Rightarrow> world \<Rightarrow> (py_error + int) \<times> world" where
  "randint a b w =
     (if b < a then (Inl ValueError, w)
      else (Inr (a + int (entropy w (draws w)) mod (b - a + 1)), w\<lparr>draws := draws w + 1\<rparr>))"

subsection \<open>The revolver\<close>

text \<open>\<^verbatim>\<open>_reload(context)\<close>, for the chat \<open>c\<close> the context belongs to.\<close>

definition reload :: "int \<Rightarrow> int \<Rightarrow> world \<Rightarrow> (py_error + bool list) \<times> world" where
  "reload nb c w =
     (let empty = False; bullet = True;
          barrel = list_repeat empty nb
      in case randint 0 (nb - 1) w of
           (Inl e, w1) \<Rightarrow> (Inl e, w1)
         | (Inr lucky_number, w1) \<Rightarrow>
             (case list_setitem barrel lucky_number bullet of
                Inl e \<Rightarrow> (Inl e, w1)
              | Inr barrel' \<Rightarrow>
                  (Inr barrel', w1\<lparr>chat_data := (chat_data w1)(c \<mapsto> barrel')\<rparr>)))"

text \<open>\<^verbatim>\<open>get_mute_minutes(shots_remain)\<close>.\<close>

definition get_mute_minutes :: "int \<Rightarrow> int \<Rightarrow> int" where
  "get_mute_minutes nb shots_remain = MUTE_MINUTES * (nb - shots_remain)"

text \<open>
  \<^verbatim>\<open>get_miss_string(shots_remain)\<close>. The list \<open>S\<close> holds the five mood signs
  U+1F615, U+1F61F, U+1F625, U+1F62B, U+1F631; a fired chamber is drawn as U+1F518 and
  a chamber still to come as U+26AA U+FE0F; the pistol is U+1F52B. The subscript of
  \<open>S\<close> is evaluated last, inside the formatted string.
\<close>

definition get_miss_string :: "int \<Rightarrow> int \<Rightarrow> py_error + str" where
  "get_miss_string nb shots_remain =
     (let S = [[128533], [128543], [128549], [128555], [128561]];
          misses = list_repeat [128280] (nb - shots_remain);
          chances = list_repeat [9898, 65039] shots_remain;
          barrel_str = concat (misses @ chances);
          h = get_mute_minutes nb (shots_remain - 1) div 60
      in case list_getitem S (nb - shots_remain - 1) of
           Inl e \<Rightarrow> Inl e
         | Inr mood \<Rightarrow>
             Inr (mood @ [128299] @ ascii '' MISS! Barrel: '' @ barrel_str
                    @ ascii '', '' @ str_of_int h @ ascii ''h''))"

text \<open>
  \<^verbatim>\<open>_shot(context)\<close>, between acquiring and releasing the lock. In a run of one
  handler at a time the lock is free on entry and free again on exit; the lock itself is
  modelled in the section on concurrent handlers.
\<close>

definition shot :: "int \<Rightarrow> int \<Rightarrow> world \<Rightarrow> (py_error + bool \<times> int) \<times> world" where
  "shot nb c w =
     (case (case chat_data w c of
              None \<Rightarrow> reload nb c w
            | Some barrel \<Rightarrow> if length barrel = 0 then reload nb c w else (Inr barrel, w)) of
        (Inl e, w1) \<Rightarrow> (Inl e, w1)
      | (Inr barrel, w1) \<Rightarrow>
          (case list_pop barrel of
             Inl e \<Rightarrow> (Inl e, w1)
           | Inr (fate, barrel') \<Rightarrow>
               (let w2 = w1\<lparr>chat_data := (chat_data w1)(c \<mapsto> barrel')\<rparr>;
                    shots_remained = int (length barrel')
                in if fate
                   then (case reload nb c w2 of
                           (Inl e, w3) \<Rightarrow> (Inl e, w3)
                         | (Inr _, w3) \<Rightarrow> (Inr (fate, shots_remained), w3))
                   else (Inr (fate, shots_remained), w2))))"

text \<open>
  \<open>n\<close> fires in a row in the chat \<open>c\<close>, with nothing else touching the chat in
  between; the results come in the order of the fires. The run stops at the first
  exception.
\<close>

fun shots :: "int \<Rightarrow> int \<Rightarrow> nat \<Rightarrow> world \<Rightarrow> (py_error + (bool \<times> int) list) \<times> world" where
  "shots nb c 0 w = (Inr [], w)"
| "shots nb c (Suc n) w =
     (case shot nb c w of
        (Inl e, w1) \<Rightarrow> (Inl e, w1)
      | (Inr r, w1) \<Rightarrow>
          (case shots nb c n w1 of
             (Inl e, w2) \<Rightarrow> (Inl e, w2)
           | (Inr rs, w2) \<Rightarrow> (Inr (r # rs), w2)))"

text \<open>
  A cylinder of \<open>n\<close> chambers with the bullet at index \<open>k\<close>, and the index that
  the next call of \<^verbatim>\<open>randint(0, nb - 1)\<close> will return.
\<close>

definition one_bullet :: "nat \<Rightarrow> nat \<Rightarrow> bool list" where
  "one_bullet n k = (replicate n False)[k := True]"

definition next_lucky :: "int \<Rightarrow> world \<Rightarrow> nat" where
  "next_lucky nb w = entropy w (draws w) mod nat nb"

subsection \<open>The ledger\<close>

text \<open>
  The methods of \<^verbatim>\<open>DB\<close> on the collection. \<open>now\<close> is what
  \<^verbatim>\<open>datetime.now()\<close> returns inside the method. \<^verbatim>\<open>insert_one\<close> raises
  \<^verbatim>\<open>DuplicateKeyError\<close> when the \<^verbatim>\<open>_id\<close> is taken; \<^verbatim>\<open>update_one\<close> changes
  the document that matches the filter and does nothing when none matches.
  \<^verbatim>\<open>timedelta().seconds\<close> is \<open>0\<close>.
\<close>

definition DB_find :: "int \<Rightarrow> collection \<Rightarrow> hussar option" where
  "DB_find uid cl = cl uid"

definition DB_add :: "tg_user \<Rightarrow> nat \<Rightarrow> collection \<Rightarrow> py_error + collection" where
  "DB_add user now cl =
     (case cl (user_id user) of
        Some _ \<Rightarrow> Inl DuplicateKeyError
      | None \<Rightarrow>
          Inr (cl(user_id user \<mapsto>
                 \<lparr>meta = to_dict user,
                  shot_counter = 0,
                  miss_counter = 0,
                  dead_counter = 0,
                  total_time_in_club = 0,
                  first_shot = now,
                  last_shot = now\<rparr>)))"

definition DB_dead :: "int \<Rightarrow> int \<Rightarrow> nat \<Rightarrow> collection \<Rightarrow> collection" where
  "DB_dead uid mute_min now cl =
     (case cl uid of
        None \<Rightarrow> cl
      | Some h \<Rightarrow>
          cl(uid \<mapsto> h\<lparr>shot_counter := shot_counter h + 1,
                        dead_counter := dead_counter h + 1,
                        total_time_in_club := total_time_in_club h + mute_min * 60,
                        last_shot := now\<rparr>))"

definition DB_miss :: "int \<Rightarrow> nat \<Rightarrow> collection \<Rightarrow> collection" where
  "DB_miss uid now cl =
     (case cl uid of
        None \<Rightarrow> cl
      | Some h \<Rightarrow>
          cl(uid \<mapsto> h\<lparr>shot_counter := shot_counter h + 1,
                        miss_counter := miss_counter h + 1,
                        last_shot := now\<rparr>))"

text \<open>
  A sequence of ledger mutations. A registration that raises leaves the collection as
  it was, and the sequence goes on with the next operation.
\<close>

datatype ledger_op =
    Register tg_user nat
  | RecordMiss int nat
  | RecordDeath int int nat

fun apply_ledger_op :: "collection \<Rightarrow> ledger_op \<Rightarrow> collection" where
  "apply_ledger_op cl (Register user now) =
     (case DB_add user now cl of Inl _ \<Rightarrow> cl | Inr cl' \<Rightarrow> cl')"
| "apply_ledger_op cl (RecordMiss uid now) = DB_miss uid now cl"
| "apply_ledger_op cl (RecordDeath uid mute_min now) = DB_dead uid mute_min now cl"

definition counters_agree :: "hussar \<Rightarrow> bool" where
  "counters_agree h \<longleftrightarrow> shot_counter h = miss_counter h + dead_counter h"

subsection \<open>The handler\<close>

text \<open>
  An update as far as \<^verbatim>\<open>roll\<close> reads it: \<^verbatim>\<open>update.effective_user\<close> and
  \<^verbatim>\<open>update.effective_chat.id\<close>.
\<close>

record update =
  effective_user :: tg_user
  effective_chat_id :: int

text \<open>
  Modelled from the spec: \<^verbatim>\<open>mute_user_for_time\<close> of \<^verbatim>\<open>skills/mute.py\<close> is
  not among the sources. The spec has the core only signal the mute and its duration
  to the chat platform, so the call is the action \<open>MuteUser chat user minutes\<close>
  appended to the outbox. \<^verbatim>\<open>context.bot.send_message\<close> is the action
  \<open>SendMessage chat text\<close>.
\<close>

definition send_message :: "int \<Rightarrow> str \<Rightarrow> world \<Rightarrow> world" where
  "send_message chat text w = w\<lparr>outbox := outbox w @ [SendMessage chat text]\<rparr>"

definition mute_user_for_time :: "update \<Rightarrow> tg_user \<Rightarrow> int \<Rightarrow> world \<Rightarrow> world" where
  "mute_user_for_time upd user minutes w =
     w\<lparr>outbox := outbox w @ [MuteUser (effective_chat_id upd) (user_id user) minutes]\<rparr>"

text \<open>
  \<^verbatim>\<open>roll(update, context)\<close>. \<open>t_add\<close> and \<open>t_shot\<close> are the clock readings
  inside \<^verbatim>\<open>DB.add\<close> and inside \<^verbatim>\<open>DB.dead\<close> or \<^verbatim>\<open>DB.miss\<close>. A stored
  document is a non-empty dictionary, hence true in \<^verbatim>\<open>find(...) or add(...)\<close>.
  The explosion is U+1F4A5 and the dizzy face U+1F635.
\<close>

definition roll :: "int \<Rightarrow> update \<Rightarrow> nat \<Rightarrow> nat \<Rightarrow> world \<Rightarrow> (py_error + unit) \<times> world" where
  "roll nb upd t_add t_shot w =
     (let user = effective_user upd; chat = effective_chat_id upd
      in case (case DB_find (user_id user) (coll w) of
                 Some _ \<Rightarrow> Inr (coll w)
               | None \<Rightarrow> DB_add user t_add (coll w)) of
           Inl e \<Rightarrow> (Inl e, w)
         | Inr cl \<Rightarrow>
             (case shot nb chat (w\<lparr>coll := cl\<rparr>) of
                (Inl e, w1) \<Rightarrow> (Inl e, w1)
              | (Inr (is_shot, shots_remained), w1) \<Rightarrow>
                  if is_shot
                  then (let mute_min = get_mute_minutes nb shots_remained;
                            w2 = send_message chat
                                   ([128165] @ ascii '' boom! '' @ full_name user
                                      @ ascii '' '' @ [128565] @ ascii '' [''
                                      @ str_of_int (mute_min div 60) @ ascii ''h mute]'') w1;
                            w3 = mute_user_for_time upd user mute_min w2
                        in (Inr (), w3\<lparr>coll := DB_dead (user_id user) mute_min t_shot (coll w3)\<rparr>))
                  else (let w2 = w1\<lparr>coll := DB_miss (user_id user) t_shot (coll w1)\<rparr>
                        in case get_miss_string nb shots_remained of
                             Inl e \<Rightarrow> (Inl e, w2)
                           | Inr s \<Rightarrow>
                               (Inr (), send_message chat (full_name user @ ascii '': '' @ s) w2))))"

subsection \<open>Concurrent handlers\<close>

text \<open>
  The handlers run on a pool of threads (\<^verbatim>\<open>run_async\<close>). \<^verbatim>\<open>barrel_lock\<close> is one
  \<^verbatim>\<open>Lock\<close> object, created when the module is loaded; \<open>lock_held\<close> is its state.
  A thread inside \<^verbatim>\<open>_shot\<close> for the chat \<open>thread_chat\<close> is either about to
  acquire the lock, or holds it and is about to run the body, or has left the function.
  \<open>step_shot\<close> advances one thread by one step; \<open>None\<close> means that the thread
  cannot move: \<^verbatim>\<open>acquire()\<close> on a held lock blocks, and a thread that has left the
  function has nothing to do. The body has no \<^verbatim>\<open>try\<close>: an exception leaves the
  lock held.
\<close>

datatype shot_pc =
    AtAcquire
  | Holding
  | Left "py_error + bool \<times> int"

record shot_thread =
  thread_chat :: int
  pc :: shot_pc

record system =
  shared :: world
  lock_held :: bool

definition step_shot :: "int \<Rightarrow> shot_thread \<Rightarrow> system \<Rightarrow> (shot_thread \<times> system) option" where
  "step_shot nb t s =
     (case pc t of
        AtAcquire \<Rightarrow>
          if lock_held s then None
          else Some (t\<lparr>pc := Holding\<rparr>, s\<lparr>lock_held := True\<rparr>)
      | Holding \<Rightarrow>
          (case shot nb (thread_chat t) (shared s) of
             (Inl e, w') \<Rightarrow> Some (t\<lparr>pc := Left (Inl e)\<rparr>, s\<lparr>shared := w'\<rparr>)
           | (Inr r, w') \<Rightarrow>
               Some (t\<lparr>pc := Left (Inr r)\<rparr>, s\<lparr>shared := w', lock_held := False\<rparr>))
      | Left _ \<Rightarrow> None)"

subsection \<open>Values for running the model\<close>

text \<open>
  The world when the process has just started: the store is empty, no chat has a
  barrel, nothing has been sent, and the generator will produce \<open>0, 1, 2, \<dots>\<close>.
\<close>

definition fresh_world :: world where
  "fresh_world =
     \<lparr>coll = Map.empty, chat_data = Map.empty, entropy = (\<lambda>i. i), draws = 0, outbox = []\<rparr>"

text \<open>
  A player with a history, the update of a fire by that player in chat 7, and a world
  in which that player is registered and chat 7 has two chambers left, the last one
  loaded.
\<close>

definition veteran :: hussar where
  "veteran =
     \<lparr>meta = [(''id'', ''42'')], shot_counter = 2, miss_counter = 1, dead_counter = 1,
      total_time_in_club = 57600, first_shot = 1, last_shot = 3\<rparr>"

definition veteran_update :: update where
  "veteran_update =
     \<lparr>effective_user = \<lparr>user_id = 42, full_name = ascii ''hussar'', to_dict = [(''id'', ''42'')]\<rparr>,
      effective_chat_id = 7\<rparr>"

definition duel_world :: world where
  "duel_world =
     \<lparr>coll = [42 \<mapsto> veteran], chat_data = [7 \<mapsto> [False, True]],
      entropy = (\<lambda>i. i), draws = 0, outbox = []\<rparr>"


text \<open>
  What holds of the value under \<^verbatim>\<open>"barrel"\<close> between two fires: it is absent, or
  empty, or it has at most \<open>nb\<close> chambers of which exactly one is loaded.
\<close>

definition cylinder_ok :: "int \<Rightarrow> bool list option \<Rightarrow> bool" where
  "cylinder_ok nb st =
     (case st of
        None \<Rightarrow> True
      | Some b \<Rightarrow> b = [] \<or> (filter (\<lambda>x. x) b = [True] \<and> int (length b) \<le> nb))"

section \<open>Properties\<close>

subsection \<open>The penalty\<close>

text \<open>
  C3. For every \<open>r\<close> with \<open>0 \<le> r < N\<close>, \<open>get_mute_minutes\<close> returns
  \<open>B * (N - r)\<close> with \<open>B = 960\<close> and \<open>N = 6\<close>; a smaller \<open>r\<close> never gives a
  smaller penalty; the penalty at \<open>r = N - 1\<close> is \<open>B = 960\<close> and at \<open>r = 0\<close> it
  is \<open>B * N = 5760\<close>. The function has no state and is defined on the whole domain.
\<close>

theorem get_mute_minutes_linear:
  "0 \<le> r \<and> r < NUM_BULLETS \<longrightarrow>
     MUTE_MINUTES = 960 \<and> NUM_BULLETS = 6
     \<and> get_mute_minutes NUM_BULLETS r = MUTE_MINUTES * (NUM_BULLETS - r)
     \<and> get_mute_minutes NUM_BULLETS r = 960 * (6 - r)
     \<and> (\<forall>r'. 0 \<le> r' \<and> r' \<le> r \<longrightarrow>
            get_mute_minutes NUM_BULLETS r \<le> get_mute_minutes NUM_BULLETS r')
     \<and> get_mute_minutes NUM_BULLETS (NUM_BULLETS - 1) = 960
     \<and> get_mute_minutes NUM_BULLETS 0 = 5760"
  by (simp add: get_mute_minutes_def MUTE_MINUTES_def NUM_BULLETS_def)

theorem get_mute_minutes_linear_witness:
  "(0::int) \<le> 2 \<and> 2 < NUM_BULLETS \<and> get_mute_minutes NUM_BULLETS 2 = 3840
   \<and> get_mute_minutes NUM_BULLETS 2 \<le> get_mute_minutes NUM_BULLETS 1"
  using get_mute_minutes_linear [of 2]
  by (simp add: NUM_BULLETS_def get_mute_minutes_def MUTE_MINUTES_def)

subsection \<open>The revolver\<close>

lemma one_bullet_length: "length (one_bullet n k) = n"
  by (simp add: one_bullet_def)


lemma one_bullet_not_Nil: "0 < n \<Longrightarrow> one_bullet n k \<noteq> []"
  by (simp add: one_bullet_def)

lemma one_bullet_split:
  "k < n \<Longrightarrow> one_bullet n k = replicate k False @ True # replicate (n - Suc k) False"
  by (auto simp: one_bullet_def list_eq_iff_nth_eq nth_list_update nth_append nth_Cons')

lemma filter_one_bullet:
  "k < n \<Longrightarrow> filter (\<lambda>x. x) (one_bullet n k) = [True]"
  by (simp add: one_bullet_split)

lemma next_lucky_less: "1 \<le> nb \<Longrightarrow> next_lucky nb w < nat nb"
  by (simp add: next_lucky_def)

lemma reload_ok:
  assumes "1 \<le> nb"
  shows "reload nb c w =
     (Inr (one_bullet (nat nb) (next_lucky nb w)),
      w\<lparr>draws := draws w + 1,
        chat_data := (chat_data w)(c \<mapsto> one_bullet (nat nb) (next_lucky nb w))\<rparr>)"
proof -
  let ?e = "entropy w (draws w)"
  have m: "nat (int ?e mod nb) = ?e mod nat nb"
    using assms by (simp add: nat_mod_distrib)
  have lt: "int ?e mod nb < nb" and ge: "0 \<le> int ?e mod nb"
    using assms by simp_all
  show ?thesis
    using assms lt ge
    by (simp add: reload_def randint_def list_setitem_def norm_index_def list_repeat_def Let_def
        one_bullet_def next_lucky_def m)
qed

lemma shot_nonempty:
  assumes "1 \<le> nb" and "chat_data w c = Some b" and "b \<noteq> []"
  shows "shot nb c w =
     (Inr (last b, int (length b) - 1),
      if last b
      then w\<lparr>draws := draws w + 1,
             chat_data := (chat_data w)(c \<mapsto> one_bullet (nat nb) (next_lucky nb w))\<rparr>
      else w\<lparr>chat_data := (chat_data w)(c \<mapsto> butlast b)\<rparr>)"
proof -
  have len: "int (length (butlast b)) = int (length b) - 1"
    using assms(3) by (simp add: of_nat_diff Suc_leI)
  show ?thesis
    using assms len
    by (simp add: shot_def list_pop_def reload_ok Let_def next_lucky_def)
qed

lemma shot_reload_first:
  assumes "1 \<le> nb" and "chat_data w c = None \<or> chat_data w c = Some []"
  shows "shot nb c w =
     shot nb c (w\<lparr>draws := draws w + 1,
                  chat_data := (chat_data w)(c \<mapsto> one_bullet (nat nb) (next_lucky nb w))\<rparr>)"
proof -
  have ne: "one_bullet (nat nb) (next_lucky nb w) \<noteq> []"
    using assms(1) by (simp add: one_bullet_not_Nil)
  show ?thesis
    using assms ne
    by (auto simp: shot_def reload_ok list_pop_def Let_def)
qed


lemma shots_Suc_miss:
  assumes "1 \<le> nb" and "chat_data w c = Some (b @ [False])"
  shows "shots nb c (Suc n) w =
     (case shots nb c n (w\<lparr>chat_data := (chat_data w)(c \<mapsto> b)\<rparr>) of
        (Inl e, w2) \<Rightarrow> (Inl e, w2)
      | (Inr rs, w2) \<Rightarrow> (Inr ((False, int (length b)) # rs), w2))"
  using assms by (simp add: shot_nonempty)

lemma shots_misses:
  assumes "1 \<le> nb"
  shows "chat_data w c = Some (replicate k False @ True # replicate m False) \<Longrightarrow> j \<le> m \<Longrightarrow>
     shots nb c j w =
       (Inr (map (\<lambda>i. (False, int (k + m) - int i)) [0..<j]),
        w\<lparr>chat_data := (chat_data w)(c \<mapsto> replicate k False @ True # replicate (m - j) False)\<rparr>)"
proof (induction j arbitrary: w m)
  case 0
  then show ?case by (simp add: map_upd_triv)
next
  case (Suc j)
  then obtain m' where m: "m = Suc m'" by (cases m) auto
  let ?b = "replicate k False @ True # replicate m' False"
  have st: "chat_data w c = Some (?b @ [False])"
    using Suc.prems(1) by (simp add: m replicate_append_same)
  let ?w = "w\<lparr>chat_data := (chat_data w)(c \<mapsto> ?b)\<rparr>"
  have "shots nb c j ?w =
       (Inr (map (\<lambda>i. (False, int (k + m') - int i)) [0..<j]),
        ?w\<lparr>chat_data := (chat_data ?w)(c \<mapsto> replicate k False @ True # replicate (m' - j) False)\<rparr>)"
    using Suc.prems(2) by (intro Suc.IH) (simp_all add: m)
  then have ih: "shots nb c j ?w =
       (Inr (map (\<lambda>i. (False, int (k + m') - int i)) [0..<j]),
        w\<lparr>chat_data := (chat_data w)(c \<mapsto> replicate k False @ True # replicate (m - Suc j) False)\<rparr>)"
    by (simp add: m)
  have mp: "map (\<lambda>i. (False, int (k + m) - int i)) [0..<Suc j]
      = (False, int (length ?b)) # map (\<lambda>i. (False, int (k + m') - int i)) [0..<j]"
    by (simp add: m upt_conv_Cons map_Suc_upt [symmetric] del: upt_Suc)
  have "shots nb c (Suc j) w =
       (Inr ((False, int (length ?b)) # map (\<lambda>i. (False, int (k + m') - int i)) [0..<j]),
        w\<lparr>chat_data := (chat_data w)(c \<mapsto> replicate k False @ True # replicate (m - Suc j) False)\<rparr>)"
    by (simp only: shots_Suc_miss [OF assms st] ih prod.case sum.case)
  then show ?case
    by (simp only: mp)
qed

lemma shot_hit_last:
  assumes "1 \<le> nb" and "chat_data w c = Some (replicate k False @ [True])"
  shows "shot nb c w =
     (Inr (True, int k),
      w\<lparr>draws := draws w + 1,
        chat_data := (chat_data w)(c \<mapsto> one_bullet (nat nb) (next_lucky nb w))\<rparr>)"
  using assms by (simp add: shot_nonempty)


lemma shots_snoc:
  "shots nb c j w = (Inr rs, w1) \<Longrightarrow>
   shots nb c (Suc j) w =
     (case shot nb c w1 of
        (Inl e, w2) \<Rightarrow> (Inl e, w2)
      | (Inr r, w2) \<Rightarrow> (Inr (rs @ [r]), w2))"
proof (induction j arbitrary: w rs)
  case 0
  then show ?case by (auto split: prod.splits sum.splits)
next
  case (Suc j)
  obtain r0 w0 where s0: "shot nb c w = (Inr r0, w0)"
    using Suc.prems by (auto split: prod.splits sum.splits)
  obtain rs0 where r0: "shots nb c j w0 = (Inr rs0, w1)" and rs: "rs = r0 # rs0"
    using Suc.prems s0 by (auto split: prod.splits sum.splits)
  have "shots nb c (Suc (Suc j)) w =
      (case shots nb c (Suc j) w0 of
         (Inl e, w2) \<Rightarrow> (Inl e, w2)
       | (Inr rs', w2) \<Rightarrow> (Inr (r0 # rs'), w2))"
    using s0 by simp
  also have "\<dots> = (case shot nb c w1 of
        (Inl e, w2) \<Rightarrow> (Inl e, w2)
      | (Inr r, w2) \<Rightarrow> (Inr (rs @ [r]), w2))"
    unfolding Suc.IH [OF r0] rs
    by (simp split: prod.splits sum.splits)
  finally show ?case .
qed

lemma take_one_bullet:
  assumes "k < n" and "j \<le> n - Suc k"
  shows "take (n - j) (one_bullet n k) = replicate k False @ True # replicate (n - Suc k - j) False"
proof -
  define l where "l = n - Suc k - j"
  have a: "n - j = k + Suc l" and b: "n - Suc k = l + j"
    using assms by (simp_all add: l_def)
  have "take (k + Suc l) (replicate k False @ True # replicate (l + j) False)
      = replicate k False @ True # replicate l False"
    by (simp add: take_Cons')
  then show ?thesis
    using assms(1) by (simp add: one_bullet_split a b l_def [symmetric])
qed

lemma cycle_run:
  assumes nb: "1 \<le> nb" and k: "k < nat nb"
    and st: "chat_data w c = Some (one_bullet (nat nb) k)"
    and j: "j \<le> nat nb - Suc k"
  shows "shots nb c j w =
     (Inr (map (\<lambda>i. (False, nb - 1 - int i)) [0..<j]),
      w\<lparr>chat_data := (chat_data w)(c \<mapsto> take (nat nb - j) (one_bullet (nat nb) k))\<rparr>)"
proof -
  have st': "chat_data w c = Some (replicate k False @ True # replicate (nat nb - Suc k) False)"
    using st k by (simp add: one_bullet_split)
  have idx: "int (k + (nat nb - Suc k)) = nb - 1"
    using nb k by (simp add: of_nat_diff)
  show ?thesis
    using shots_misses [OF nb st' j] idx
    by (simp only: take_one_bullet [OF k j])
qed

lemma cycle_hit:
  assumes nb: "1 \<le> nb" and k: "k < nat nb"
    and st: "chat_data w c = Some (one_bullet (nat nb) k)"
  shows "shots nb c (Suc (nat nb - Suc k)) w =
     (Inr (map (\<lambda>i. (False, nb - 1 - int i)) [0..<nat nb - Suc k] @ [(True, int k)]),
      w\<lparr>draws := draws w + 1,
        chat_data := (chat_data w)(c \<mapsto> one_bullet (nat nb) (next_lucky nb w))\<rparr>)"
proof -
  let ?m = "nat nb - Suc k"
  let ?w = "w\<lparr>chat_data := (chat_data w)(c \<mapsto> take (nat nb - ?m) (one_bullet (nat nb) k))\<rparr>"
  have run: "shots nb c ?m w = (Inr (map (\<lambda>i. (False, nb - 1 - int i)) [0..<?m]), ?w)"
    by (rule cycle_run [OF nb k st order_refl])
  have "take (nat nb - ?m) (one_bullet (nat nb) k) = replicate k False @ [True]"
    using take_one_bullet [OF k order_refl] by simp
  then have "chat_data ?w c = Some (replicate k False @ [True])"
    by simp
  then have "shot nb c ?w =
     (Inr (True, int k),
      ?w\<lparr>draws := draws ?w + 1,
        chat_data := (chat_data ?w)(c \<mapsto> one_bullet (nat nb) (next_lucky nb ?w))\<rparr>)"
    by (rule shot_hit_last [OF nb])
  then have hit: "shot nb c ?w =
     (Inr (True, int k),
      w\<lparr>draws := draws w + 1,
        chat_data := (chat_data w)(c \<mapsto> one_bullet (nat nb) (next_lucky nb w))\<rparr>)"
    by (simp add: next_lucky_def)
  show ?thesis
    by (simp only: shots_snoc [OF run] hit prod.case sum.case)
qed


lemma one_bullet_6_0: "one_bullet 6 0 = [True, False, False, False, False, False]"
  by (simp add: one_bullet_def eval_nat_numeral)

text \<open>
  C1. For every state of a chat, \<open>shot\<close> works on the stored barrel, or on a freshly
  reloaded one when none is stored or the stored one is empty. It removes exactly the
  last chamber of that barrel and returns, next to the popped chamber, the number of
  chambers left after the pop. When the popped chamber was loaded, the chat's barrel
  on return is a freshly reloaded full cylinder (six chambers, one loaded); when it
  was empty, the barrel on return is the old one without its last chamber, and no
  reload took place.
\<close>

theorem shot_pops_last_chamber:
  "let reloaded = (chat_data w c = None \<or> chat_data w c = Some []);
       w0 = (if reloaded then w\<lparr>draws := draws w + 1\<rparr> else w);
       b = (if reloaded then one_bullet 6 (next_lucky NUM_BULLETS w) else the (chat_data w c));
       fresh = one_bullet 6 (next_lucky NUM_BULLETS w0)
   in b \<noteq> [] \<and> b = butlast b @ [last b]
      \<and> fst (shot NUM_BULLETS c w) = Inr (last b, int (length (butlast b)))
      \<and> (last b \<longrightarrow>
            snd (shot NUM_BULLETS c w) =
              w0\<lparr>draws := draws w0 + 1, chat_data := (chat_data w)(c \<mapsto> fresh)\<rparr>
            \<and> length fresh = 6 \<and> filter (\<lambda>x. x) fresh = [True])
      \<and> (\<not> last b \<longrightarrow>
            snd (shot NUM_BULLETS c w) = w0\<lparr>chat_data := (chat_data w)(c \<mapsto> butlast b)\<rparr>)"
proof (cases "chat_data w c = None \<or> chat_data w c = Some []")
  case True
  have nb: "1 \<le> NUM_BULLETS" by (simp add: NUM_BULLETS_def)
  let ?w = "w\<lparr>draws := draws w + 1,
                  chat_data := (chat_data w)(c \<mapsto> one_bullet (nat NUM_BULLETS) (next_lucky NUM_BULLETS w))\<rparr>"
  have ne: "one_bullet (nat NUM_BULLETS) (next_lucky NUM_BULLETS w) \<noteq> []"
    by (simp add: one_bullet_not_Nil NUM_BULLETS_def)
  have "shot NUM_BULLETS c w = shot NUM_BULLETS c ?w"
    by (rule shot_reload_first [OF nb True])
  also have "\<dots> = (Inr (last (one_bullet (nat NUM_BULLETS) (next_lucky NUM_BULLETS w)),
       int (length (one_bullet (nat NUM_BULLETS) (next_lucky NUM_BULLETS w))) - 1),
      if last (one_bullet (nat NUM_BULLETS) (next_lucky NUM_BULLETS w))
      then ?w\<lparr>draws := draws ?w + 1,
             chat_data := (chat_data ?w)(c \<mapsto> one_bullet (nat NUM_BULLETS) (next_lucky NUM_BULLETS ?w))\<rparr>
      else ?w\<lparr>chat_data := (chat_data ?w)(c \<mapsto> butlast (one_bullet (nat NUM_BULLETS) (next_lucky NUM_BULLETS w)))\<rparr>)"
    by (rule shot_nonempty [OF nb _ ne]) simp
  finally have s: "shot NUM_BULLETS c w = \<dots>" .
  have lk: "next_lucky NUM_BULLETS (w\<lparr>draws := draws w + 1\<rparr>) < 6"
    using next_lucky_less [OF nb, of "w\<lparr>draws := draws w + 1\<rparr>"] by (simp add: NUM_BULLETS_def)
  have six: "nat NUM_BULLETS = 6" by (simp add: NUM_BULLETS_def)
  show ?thesis
    using True ne lk unfolding s
    by (simp add: Let_def six one_bullet_length filter_one_bullet next_lucky_def of_nat_diff)
next
  case False
  have nb: "1 \<le> NUM_BULLETS" by (simp add: NUM_BULLETS_def)
  from False obtain b where b: "chat_data w c = Some b" "b \<noteq> []" by auto
  have lk: "next_lucky NUM_BULLETS w < 6"
    using next_lucky_less [OF nb, of w] by (simp add: NUM_BULLETS_def)
  have six: "nat NUM_BULLETS = 6" by (simp add: NUM_BULLETS_def)
  have len: "int (length b - Suc 0) = int (length b) - 1"
    using b(2) by (cases b) simp_all
  show ?thesis
    using b lk unfolding shot_nonempty [OF nb b]
    by (simp add: Let_def six one_bullet_length filter_one_bullet len)
qed



theorem shot_pops_last_chamber_witness:
  "fst (shot NUM_BULLETS 7 (fresh_world\<lparr>chat_data := [7 \<mapsto> [False, True]]\<rparr>)) = Inr (True, 1)
   \<and> chat_data (snd (shot NUM_BULLETS 7 (fresh_world\<lparr>chat_data := [7 \<mapsto> [False, True]]\<rparr>))) 7
       = Some [True, False, False, False, False, False]
   \<and> draws (snd (shot NUM_BULLETS 7 (fresh_world\<lparr>chat_data := [7 \<mapsto> [False, True]]\<rparr>))) = 1"
proof -
  have l: "next_lucky NUM_BULLETS (fresh_world\<lparr>chat_data := [7 \<mapsto> [False, True]]\<rparr>) = 0"
    by (simp add: next_lucky_def fresh_world_def)
  have c: "chat_data (fresh_world\<lparr>chat_data := [7 \<mapsto> [False, True]]\<rparr>) 7 = Some [False, True]"
    by simp
  have d: "draws (fresh_world\<lparr>chat_data := [7 \<mapsto> [False, True]]\<rparr>) = 0"
    by (simp add: fresh_world_def)
  show ?thesis
    using shot_pops_last_chamber [of "fresh_world\<lparr>chat_data := [7 \<mapsto> [False, True]]\<rparr>" 7]
    by (simp add: Let_def l c d one_bullet_6_0)
qed




text \<open>
  C4. Start right after a reload, with \<open>nb \<ge> 1\<close> chambers and the bullet at any index
  \<open>k\<close>. The first \<open>nb - 1 - k\<close> fires all miss, each leaves one chamber fewer
  (\<open>nb - j\<close> chambers after \<open>j\<close> fires, never none), and the next fire hits. So
  the hit comes after at most \<open>nb\<close> pops, and the barrel is never emptied by a miss.
\<close>

theorem cycle_ends_with_hit:
  assumes "1 \<le> nb" and "k < nat nb"
    and "chat_data w c = Some (one_bullet (nat nb) k)"
  shows "(\<forall>j \<le> nat nb - Suc k.
            shots nb c j w =
              (Inr (map (\<lambda>i. (False, nb - 1 - int i)) [0..<j]),
               w\<lparr>chat_data := (chat_data w)(c \<mapsto> take (nat nb - j) (one_bullet (nat nb) k))\<rparr>)
            \<and> length (take (nat nb - j) (one_bullet (nat nb) k)) = nat nb - j
            \<and> 0 < nat nb - j)
       \<and> fst (shots nb c (Suc (nat nb - Suc k)) w) =
           Inr (map (\<lambda>i. (False, nb - 1 - int i)) [0..<nat nb - Suc k] @ [(True, int k)])
       \<and> Suc (nat nb - Suc k) \<le> nat nb"
proof (intro conjI allI impI)
  fix j assume j: "j \<le> nat nb - Suc k"
  show "shots nb c j w =
              (Inr (map (\<lambda>i. (False, nb - 1 - int i)) [0..<j]),
               w\<lparr>chat_data := (chat_data w)(c \<mapsto> take (nat nb - j) (one_bullet (nat nb) k))\<rparr>)"
    by (rule cycle_run [OF assms j])
  show "length (take (nat nb - j) (one_bullet (nat nb) k)) = nat nb - j"
    by (simp add: one_bullet_length)
  show "0 < nat nb - j"
    using j assms(2) by arith
next
  show "fst (shots nb c (Suc (nat nb - Suc k)) w) =
           Inr (map (\<lambda>i. (False, nb - 1 - int i)) [0..<nat nb - Suc k] @ [(True, int k)])"
    by (simp only: cycle_hit [OF assms] fst_conv)
  show "Suc (nat nb - Suc k) \<le> nat nb"
    using assms(2) by arith
qed


theorem cycle_ends_with_hit_witness:
  "1 \<le> NUM_BULLETS \<and> 2 < nat NUM_BULLETS
   \<and> chat_data (fresh_world\<lparr>chat_data := [7 \<mapsto> one_bullet 6 2]\<rparr>) 7 = Some (one_bullet (nat NUM_BULLETS) 2)
   \<and> fst (shots NUM_BULLETS 7 4 (fresh_world\<lparr>chat_data := [7 \<mapsto> one_bullet 6 2]\<rparr>))
       = Inr [(False, 5), (False, 4), (False, 3), (True, 2)]"
  using cycle_ends_with_hit [of NUM_BULLETS 2 "fresh_world\<lparr>chat_data := [7 \<mapsto> one_bullet 6 2]\<rparr>" 7]
  by (simp add: NUM_BULLETS_def eval_nat_numeral)

lemma shots_add:
  "shots nb c (a + b) w =
     (case shots nb c a w of
        (Inl e, w1) \<Rightarrow> (Inl e, w1)
      | (Inr rs1, w1) \<Rightarrow>
          (case shots nb c b w1 of
             (Inl e, w2) \<Rightarrow> (Inl e, w2)
           | (Inr rs2, w2) \<Rightarrow> (Inr (rs1 @ rs2), w2)))"
  by (induction a arbitrary: w) (auto split: prod.splits sum.splits)

lemma upt_5: "[0..<5] = [0, 1, 2, 3, 4]"
  by (simp add: upt_rec)

lemma five_misses_bullet_first:
  assumes k: "k < 6" and st: "chat_data w c = Some (one_bullet 6 k)"
    and run: "shots NUM_BULLETS c 5 w = (Inr rs, w')"
    and miss: "\<forall>r \<in> set rs. \<not> fst r"
  shows "k = 0"
proof (rule ccontr)
  assume "k \<noteq> 0"
  have nb: "1 \<le> NUM_BULLETS" and six: "nat NUM_BULLETS = 6"
    by (simp_all add: NUM_BULLETS_def)
  define m where "m = 6 - Suc k"
  have m: "Suc m + (4 - m) = 5"
    using k \<open>k \<noteq> 0\<close> by (simp add: m_def)
  define rs1 where "rs1 = map (\<lambda>i. (False, NUM_BULLETS - 1 - int i)) [0..<m] @ [(True, int k)]"
  obtain w1 where hit: "shots NUM_BULLETS c (Suc m) w = (Inr rs1, w1)"
    using cycle_hit [OF nb, of k w c] k st by (simp add: six m_def rs1_def)
  have "shots NUM_BULLETS c (Suc m + (4 - m)) w =
      (case shots NUM_BULLETS c (4 - m) w1 of
         (Inl e, w2) \<Rightarrow> (Inl e, w2)
       | (Inr rs2, w2) \<Rightarrow> (Inr (rs1 @ rs2), w2))"
    by (simp only: shots_add hit prod.case sum.case)
  then have "(case shots NUM_BULLETS c (4 - m) w1 of
         (Inl e, w2) \<Rightarrow> (Inl e, w2)
       | (Inr rs2, w2) \<Rightarrow> (Inr (rs1 @ rs2), w2)) = (Inr rs, w')"
    using run by (simp only: m)
  then obtain rs2 where "rs = rs1 @ rs2"
    by (auto split: prod.splits sum.splits)
  then have "(True, int k) \<in> set rs"
    by (simp add: rs1_def)
  then show False
    using miss by auto
qed

lemma five_misses_run:
  "shots NUM_BULLETS 7 5 (fresh_world\<lparr>chat_data := [7 \<mapsto> one_bullet 6 0]\<rparr>) =
     (Inr [(False, 5), (False, 4), (False, 3), (False, 2), (False, 1)],
      fresh_world\<lparr>chat_data := [7 \<mapsto> [True]]\<rparr>)"
proof -
  let ?w = "fresh_world\<lparr>chat_data := [7 \<mapsto> one_bullet 6 0]\<rparr>"
  have nb: "1 \<le> NUM_BULLETS" and six: "nat NUM_BULLETS = 6"
    by (simp_all add: NUM_BULLETS_def)
  have st: "chat_data ?w 7 = Some (one_bullet (nat NUM_BULLETS) 0)"
    by (simp add: six)
  have "shots NUM_BULLETS 7 5 ?w =
     (Inr (map (\<lambda>i. (False, NUM_BULLETS - 1 - int i)) [0..<5]),
      ?w\<lparr>chat_data := (chat_data ?w)(7 \<mapsto> take (nat NUM_BULLETS - 5) (one_bullet (nat NUM_BULLETS) 0))\<rparr>)"
    by (rule cycle_run [OF nb _ st]) (simp_all add: six)
  then show ?thesis
    by (simp add: upt_5 six one_bullet_6_0 NUM_BULLETS_def)
qed

text \<open>
  C7, as the code has it. Start right after a reload with six chambers. If the first
  five fires all miss, the numbers of chambers they report are 5, 4, 3, 2, 1 (each is
  the count after that pop), one chamber is left and it is the loaded one, and the sixth
  fire hits and reports 0.
\<close>

theorem five_misses_then_hit:
  assumes "k < 6" and "chat_data w c = Some (one_bullet 6 k)"
    and "shots NUM_BULLETS c 5 w = (Inr rs, w')"
    and "\<forall>r \<in> set rs. \<not> fst r"
  shows "map snd rs = [5, 4, 3, 2, 1]
       \<and> chat_data w' c = Some [True]
       \<and> fst (shot NUM_BULLETS c w') = Inr (True, 0)"
proof -
  have nb: "1 \<le> NUM_BULLETS" and six: "nat NUM_BULLETS = 6"
    by (simp_all add: NUM_BULLETS_def)
  have k0: "k = 0"
    by (rule five_misses_bullet_first [OF assms])
  have st: "chat_data w c = Some (one_bullet (nat NUM_BULLETS) 0)"
    using assms(2) by (simp add: k0 six)
  have "shots NUM_BULLETS c 5 w =
     (Inr (map (\<lambda>i. (False, NUM_BULLETS - 1 - int i)) [0..<5]),
      w\<lparr>chat_data := (chat_data w)(c \<mapsto> take (nat NUM_BULLETS - 5) (one_bullet (nat NUM_BULLETS) 0))\<rparr>)"
    by (rule cycle_run [OF nb _ st]) (simp_all add: six)
  then have rs: "rs = map (\<lambda>i. (False, NUM_BULLETS - 1 - int i)) [0..<5]"
    and w': "w' = w\<lparr>chat_data := (chat_data w)(c \<mapsto> [True])\<rparr>"
    using assms(3) by (simp_all add: six one_bullet_6_0)
  have c': "chat_data w' c = Some [True]"
    by (simp add: w')
  have "fst (shot NUM_BULLETS c w') = Inr (True, 0)"
    by (simp add: shot_nonempty [OF nb c'])
  then show ?thesis
    using c' by (simp add: rs upt_5 NUM_BULLETS_def)
qed

theorem five_misses_then_hit_witness:
  "(0::nat) < 6
   \<and> chat_data (fresh_world\<lparr>chat_data := [7 \<mapsto> one_bullet 6 0]\<rparr>) 7 = Some (one_bullet 6 0)
   \<and> shots NUM_BULLETS 7 5 (fresh_world\<lparr>chat_data := [7 \<mapsto> one_bullet 6 0]\<rparr>)
       = (Inr [(False, 5), (False, 4), (False, 3), (False, 2), (False, 1)],
          fresh_world\<lparr>chat_data := [7 \<mapsto> [True]]\<rparr>)
   \<and> map fst [(False, 5::int), (False, 4), (False, 3), (False, 2), (False, 1)]
       = [False, False, False, False, False]
   \<and> fst (shot NUM_BULLETS 7 (fresh_world\<lparr>chat_data := [7 \<mapsto> [True]]\<rparr>)) = Inr (True, 0)"
proof -
  have k: "(0::nat) < 6" by simp
  have st: "chat_data (fresh_world\<lparr>chat_data := [7 \<mapsto> one_bullet 6 0]\<rparr>) 7 = Some (one_bullet 6 0)"
    by simp
  have miss: "\<forall>r \<in> set [(False, 5::int), (False, 4), (False, 3), (False, 2), (False, 1)]. \<not> fst r"
    by simp
  show ?thesis
    using five_misses_then_hit [OF k st five_misses_run miss] k st five_misses_run miss
    by (intro conjI) simp_all
qed

text \<open>
  C7 as stated fails: with the bullet in the chamber popped last, the five misses report
  5, 4, 3, 2, 1 and not 4, 3, 2, 1, 0.
\<close>

theorem five_misses_count_from_five:
  "fst (shots NUM_BULLETS 7 5 (fresh_world\<lparr>chat_data := [7 \<mapsto> one_bullet 6 0]\<rparr>))
     = Inr [(False, 5), (False, 4), (False, 3), (False, 2), (False, 1)]
   \<and> map snd [(False, 5), (False, 4), (False, 3), (False, 2), (False, 1)] \<noteq> [4, 3, 2, 1, 0 :: int]"
  by (simp add: five_misses_run)

lemma cylinder_ok_fresh:
  "1 \<le> nb \<Longrightarrow> k < nat nb \<Longrightarrow> cylinder_ok nb (Some (one_bullet (nat nb) k))"
  by (simp add: cylinder_ok_def filter_one_bullet one_bullet_length)

lemma shot_loaded_cylinder:
  assumes nb: "1 \<le> nb" and st: "chat_data w c = Some b"
    and one: "filter (\<lambda>x. x) b = [True]" and len: "int (length b) \<le> nb"
  shows "\<exists>r w'. shot nb c w = (Inr r, w') \<and> cylinder_ok nb (chat_data w' c)
           \<and> (\<not> fst r \<longrightarrow> 1 \<le> snd r \<and> snd r \<le> nb - 1)"
proof -
  have ne: "b \<noteq> []"
    using one by auto
  then have b: "b = butlast b @ [last b]"
    by simp
  show ?thesis
  proof (cases "last b")
    case True
    then show ?thesis
      using nb by (simp add: shot_nonempty [OF nb st ne] cylinder_ok_fresh next_lucky_less)
  next
    case False
    have "filter (\<lambda>x. x) (butlast b @ [last b]) = [True]"
      using one b by simp
    then have f: "filter (\<lambda>x. x) (butlast b) = [True]"
      using False by simp
    then have "butlast b \<noteq> []"
      by auto
    then have l1: "1 \<le> int (length (butlast b))"
      by (cases "butlast b") simp_all
    have l2: "int (length (butlast b)) = int (length b) - 1"
      using ne by (cases b) simp_all
    show ?thesis
      using False f l1 l2 len
      by (simp add: shot_nonempty [OF nb st ne] cylinder_ok_def)
  qed
qed

lemma shot_keeps_cylinder_ok:
  assumes nb: "1 \<le> nb" and ok: "cylinder_ok nb (chat_data w c)"
  shows "\<exists>r w'. shot nb c w = (Inr r, w') \<and> cylinder_ok nb (chat_data w' c)
           \<and> (\<not> fst r \<longrightarrow> 1 \<le> snd r \<and> snd r \<le> nb - 1)"
proof (cases "chat_data w c = None \<or> chat_data w c = Some []")
  case True
  let ?b = "one_bullet (nat nb) (next_lucky nb w)"
  let ?w = "w\<lparr>draws := draws w + 1, chat_data := (chat_data w)(c \<mapsto> ?b)\<rparr>"
  have lk: "next_lucky nb w < nat nb"
    by (rule next_lucky_less [OF nb])
  have "\<exists>r w'. shot nb c ?w = (Inr r, w') \<and> cylinder_ok nb (chat_data w' c)
           \<and> (\<not> fst r \<longrightarrow> 1 \<le> snd r \<and> snd r \<le> nb - 1)"
    using nb by (intro shot_loaded_cylinder [where b = ?b])
      (simp_all add: filter_one_bullet [OF lk] one_bullet_length)
  then show ?thesis
    by (simp only: shot_reload_first [OF nb True])
next
  case False
  then obtain b where b: "chat_data w c = Some b" "b \<noteq> []"
    by auto
  then have "filter (\<lambda>x. x) b = [True]" "int (length b) \<le> nb"
    using ok by (simp_all add: cylinder_ok_def)
  then show ?thesis
    by (rule shot_loaded_cylinder [OF nb b(1)])
qed

lemma shots_keep_cylinder_ok:
  assumes nb: "1 \<le> nb"
  shows "cylinder_ok nb (chat_data w c) \<Longrightarrow>
     \<exists>rs w'. shots nb c n w = (Inr rs, w') \<and> cylinder_ok nb (chat_data w' c)
        \<and> (\<forall>r \<in> set rs. \<not> fst r \<longrightarrow> 1 \<le> snd r \<and> snd r \<le> nb - 1)"
proof (induction n arbitrary: w)
  case 0
  then show ?case by simp
next
  case (Suc n)
  obtain r w1 where s: "shot nb c w = (Inr r, w1)" and ok1: "cylinder_ok nb (chat_data w1 c)"
    and r: "\<not> fst r \<longrightarrow> 1 \<le> snd r \<and> snd r \<le> nb - 1"
    using shot_keeps_cylinder_ok [OF nb Suc.prems] by blast
  obtain rs w2 where ss: "shots nb c n w1 = (Inr rs, w2)" and ok2: "cylinder_ok nb (chat_data w2 c)"
    and rs: "\<forall>r \<in> set rs. \<not> fst r \<longrightarrow> 1 \<le> snd r \<and> snd r \<le> nb - 1"
    using Suc.IH [OF ok1] by blast
  show ?case
    using ok2 r rs by (simp add: s ss)
qed

lemma get_miss_string_ok:
  assumes "1 \<le> sr" and "sr \<le> 5"
  shows "\<exists>s. get_miss_string NUM_BULLETS sr = Inr s"
  using assms
  by (simp add: get_miss_string_def list_getitem_def norm_index_def Let_def NUM_BULLETS_def)

lemma replicate_5: "replicate 5 x = [x, x, x, x, x]"
  by (simp add: eval_nat_numeral)

lemma digits_32: "digits 32 = [51, 50]"
  by simp

lemma get_miss_string_first:
  "get_miss_string NUM_BULLETS 5 =
     Inr ([128533, 128299] @ ascii '' MISS! Barrel: ''
          @ [128280, 9898, 65039, 9898, 65039, 9898, 65039, 9898, 65039, 9898, 65039]
          @ ascii '', 32h'')"
  by (simp add: get_miss_string_def list_getitem_def norm_index_def Let_def NUM_BULLETS_def
        list_repeat_def get_mute_minutes_def MUTE_MINUTES_def str_of_int_def ascii_def
        replicate_5 digits_32 del: digits.simps)

text \<open>
  C10. Start from a chat with no barrel yet or right after a reload, with six chambers,
  and fire any number of times. No fire raises, and every miss reports a number of
  chambers between 1 and 5. So the subscript \<open>NUM_BULLETS - shots_remain - 1\<close> of the
  five mood signs lies between 0 and 4, the lookup succeeds, and
  \<open>get_miss_string\<close> returns a string.
\<close>

theorem miss_string_in_bounds:
  assumes "chat_data w c = None \<or> (\<exists>k<6. chat_data w c = Some (one_bullet 6 k))"
  shows "\<exists>rs w'. shots NUM_BULLETS c n w = (Inr rs, w')
           \<and> (\<forall>r \<in> set rs. \<not> fst r \<longrightarrow>
                 1 \<le> snd r \<and> snd r \<le> NUM_BULLETS - 1
                 \<and> 0 \<le> NUM_BULLETS - snd r - 1 \<and> NUM_BULLETS - snd r - 1 \<le> 4
                 \<and> (\<exists>s. list_getitem [[128533], [128543], [128549], [128555], [128561::nat]]
                             (NUM_BULLETS - snd r - 1) = Inr s)
                 \<and> (\<exists>s. get_miss_string NUM_BULLETS (snd r) = Inr s))"
proof -
  have nb: "1 \<le> NUM_BULLETS" and six: "nat NUM_BULLETS = 6"
    by (simp_all add: NUM_BULLETS_def)
  have "cylinder_ok NUM_BULLETS (chat_data w c)"
    using assms cylinder_ok_fresh [OF nb]
    by (auto simp: six cylinder_ok_def)
  then obtain rs w' where run: "shots NUM_BULLETS c n w = (Inr rs, w')"
    and rs: "\<forall>r \<in> set rs. \<not> fst r \<longrightarrow> 1 \<le> snd r \<and> snd r \<le> NUM_BULLETS - 1"
    using shots_keep_cylinder_ok [OF nb, of w c n] by blast
  have "\<forall>r \<in> set rs. \<not> fst r \<longrightarrow>
                 1 \<le> snd r \<and> snd r \<le> NUM_BULLETS - 1
                 \<and> 0 \<le> NUM_BULLETS - snd r - 1 \<and> NUM_BULLETS - snd r - 1 \<le> 4
                 \<and> (\<exists>s. list_getitem [[128533], [128543], [128549], [128555], [128561::nat]]
                             (NUM_BULLETS - snd r - 1) = Inr s)
                 \<and> (\<exists>s. get_miss_string NUM_BULLETS (snd r) = Inr s)"
  proof (intro ballI impI)
    fix r assume "r \<in> set rs" and "\<not> fst r"
    then have b: "1 \<le> snd r" "snd r \<le> 5"
      using rs by (auto simp: NUM_BULLETS_def)
    then show "1 \<le> snd r \<and> snd r \<le> NUM_BULLETS - 1
                 \<and> 0 \<le> NUM_BULLETS - snd r - 1 \<and> NUM_BULLETS - snd r - 1 \<le> 4
                 \<and> (\<exists>s. list_getitem [[128533], [128543], [128549], [128555], [128561::nat]]
                             (NUM_BULLETS - snd r - 1) = Inr s)
                 \<and> (\<exists>s. get_miss_string NUM_BULLETS (snd r) = Inr s)"
      using get_miss_string_ok [OF b]
      by (simp add: NUM_BULLETS_def list_getitem_def norm_index_def)
  qed
  with run show ?thesis by blast
qed

theorem miss_string_in_bounds_witness:
  "(\<exists>k<6. chat_data (fresh_world\<lparr>chat_data := [7 \<mapsto> one_bullet 6 0]\<rparr>) 7 = Some (one_bullet 6 k))
   \<and> fst (shots NUM_BULLETS 7 5 (fresh_world\<lparr>chat_data := [7 \<mapsto> one_bullet 6 0]\<rparr>))
       = Inr [(False, 5), (False, 4), (False, 3), (False, 2), (False, 1)]
   \<and> (\<exists>s. get_miss_string NUM_BULLETS 1 = Inr s)
   \<and> (\<exists>s. get_miss_string NUM_BULLETS 3 = Inr s)
   \<and> get_miss_string NUM_BULLETS 5 =
       Inr ([128533, 128299] @ ascii '' MISS! Barrel: ''
            @ [128280, 9898, 65039, 9898, 65039, 9898, 65039, 9898, 65039, 9898, 65039]
            @ ascii '', 32h'')"
proof -
  let ?w = "fresh_world\<lparr>chat_data := [7 \<mapsto> one_bullet 6 0]\<rparr>"
  have e: "\<exists>k<6. chat_data ?w 7 = Some (one_bullet 6 k)"
    by (intro exI [of _ 0]) simp
  then have h: "chat_data ?w 7 = None \<or> (\<exists>k<6. chat_data ?w 7 = Some (one_bullet 6 k))"
    by (rule disjI2)
  from miss_string_in_bounds [OF h, of 5]
  have "\<forall>r \<in> set [(False, 5), (False, 4), (False, 3), (False, 2), (False, 1)].
         1 \<le> snd r \<and> snd r \<le> NUM_BULLETS - 1
         \<and> (\<exists>s. get_miss_string NUM_BULLETS (snd r) = Inr s)"
    unfolding five_misses_run by auto
  then have "(\<exists>s. get_miss_string NUM_BULLETS 1 = Inr s)
      \<and> (\<exists>s. get_miss_string NUM_BULLETS 3 = Inr s)"
    by simp
  then show ?thesis
    using e get_miss_string_first by (simp only: five_misses_run fst_conv simp_thms)
qed

subsection \<open>The ledger\<close>

lemma apply_ledger_op_agree:
  assumes "\<And>u h. cl u = Some h \<Longrightarrow> counters_agree h"
    and "apply_ledger_op cl x u = Some h"
  shows "counters_agree h"
proof (cases x)
  case (Register user now)
  then show ?thesis
    using assms
    by (auto simp: DB_add_def counters_agree_def split: option.splits if_splits)
next
  case (RecordMiss uid now)
  then show ?thesis
    using assms
    by (auto simp: DB_miss_def counters_agree_def split: option.splits if_splits)
next
  case (RecordDeath uid mute_min now)
  then show ?thesis
    using assms
    by (auto simp: DB_dead_def counters_agree_def split: option.splits if_splits)
qed

lemma ledger_ops_agree:
  "(\<And>u h. cl u = Some h \<Longrightarrow> counters_agree h) \<Longrightarrow>
   foldl apply_ledger_op cl ops u = Some h \<Longrightarrow> counters_agree h"
proof (induction ops arbitrary: cl)
  case Nil
  then show ?case by simp
next
  case (Cons x ops)
  show ?case
  proof (rule Cons.IH)
    show "foldl apply_ledger_op (apply_ledger_op cl x) ops u = Some h"
      using Cons.prems(2) by simp
    show "\<And>u h. apply_ledger_op cl x u = Some h \<Longrightarrow> counters_agree h"
      using Cons.prems(1) by (rule apply_ledger_op_agree)
  qed
qed

lemma ledger_run:
  "foldl apply_ledger_op Map.empty
     [Register \<lparr>user_id = 42, full_name = ascii ''hussar'', to_dict = [(''id'', ''42'')]\<rparr> 1,
      RecordMiss 42 2, RecordDeath 42 960 3] 42
   = Some \<lparr>meta = [(''id'', ''42'')], shot_counter = 2, miss_counter = 1, dead_counter = 1,
            total_time_in_club = 57600, first_shot = 1, last_shot = 3\<rparr>"
  by (simp add: DB_add_def DB_miss_def DB_dead_def)


text \<open>
  C5. Every sequence of registrations, recorded misses and recorded deaths keeps
  \<open>shot_counter = miss_counter + dead_counter\<close> in every document, from any
  collection where it holds, hence from the empty one. \<open>DB_add\<close> creates the
  document of an absent player with the three counters (and the time in the club) at
  zero; \<open>DB_miss\<close> adds exactly one to the shots and to the misses; \<open>DB_dead\<close>
  adds exactly one to the shots and to the deaths and \<open>mute_min * 60\<close> to the time
  in the club.
\<close>

theorem ledger_counters_agree:
  "((\<forall>h \<in> ran cl. counters_agree h) \<longrightarrow>
      (\<forall>h \<in> ran (foldl apply_ledger_op cl ops). counters_agree h))
   \<and> (\<forall>h \<in> ran (foldl apply_ledger_op Map.empty ops). counters_agree h)
   \<and> (cl (user_id user) = None \<longrightarrow>
        (\<exists>cl'. DB_add user now cl = Inr cl'
           \<and> cl' (user_id user) =
               Some \<lparr>meta = to_dict user, shot_counter = 0, miss_counter = 0, dead_counter = 0,
                     total_time_in_club = 0, first_shot = now, last_shot = now\<rparr>))
   \<and> (cl uid = Some h \<longrightarrow>
        (\<exists>h'. DB_miss uid now cl uid = Some h'
           \<and> shot_counter h' = shot_counter h + 1
           \<and> miss_counter h' = miss_counter h + 1
           \<and> dead_counter h' = dead_counter h)
        \<and> (\<exists>h'. DB_dead uid mute_min now cl uid = Some h'
           \<and> shot_counter h' = shot_counter h + 1
           \<and> dead_counter h' = dead_counter h + 1
           \<and> miss_counter h' = miss_counter h
           \<and> total_time_in_club h' = total_time_in_club h + mute_min * 60))"
proof (intro conjI)
  show "(\<forall>h \<in> ran cl. counters_agree h) \<longrightarrow>
      (\<forall>h \<in> ran (foldl apply_ledger_op cl ops). counters_agree h)"
  proof (intro impI ballI)
    fix h assume a: "\<forall>h \<in> ran cl. counters_agree h"
      and h: "h \<in> ran (foldl apply_ledger_op cl ops)"
    from h obtain u where "foldl apply_ledger_op cl ops u = Some h"
      by (auto simp: ran_def)
    then show "counters_agree h"
      using a by (intro ledger_ops_agree [of cl ops u h]) (auto simp: ran_def)
  qed
  show "\<forall>h \<in> ran (foldl apply_ledger_op Map.empty ops). counters_agree h"
  proof
    fix h assume "h \<in> ran (foldl apply_ledger_op Map.empty ops)"
    then obtain u where "foldl apply_ledger_op Map.empty ops u = Some h"
      by (auto simp: ran_def)
    then show "counters_agree h"
      by (intro ledger_ops_agree [of Map.empty ops u h]) simp_all
  qed
  show "cl (user_id user) = None \<longrightarrow>
        (\<exists>cl'. DB_add user now cl = Inr cl'
           \<and> cl' (user_id user) =
               Some \<lparr>meta = to_dict user, shot_counter = 0, miss_counter = 0, dead_counter = 0,
                     total_time_in_club = 0, first_shot = now, last_shot = now\<rparr>)"
    by (simp add: DB_add_def)
  show "cl uid = Some h \<longrightarrow>
        (\<exists>h'. DB_miss uid now cl uid = Some h'
           \<and> shot_counter h' = shot_counter h + 1
           \<and> miss_counter h' = miss_counter h + 1
           \<and> dead_counter h' = dead_counter h)
        \<and> (\<exists>h'. DB_dead uid mute_min now cl uid = Some h'
           \<and> shot_counter h' = shot_counter h + 1
           \<and> dead_counter h' = dead_counter h + 1
           \<and> miss_counter h' = miss_counter h
           \<and> total_time_in_club h' = total_time_in_club h + mute_min * 60)"
    by (simp add: DB_miss_def DB_dead_def)
qed

theorem ledger_counters_agree_witness:
  "foldl apply_ledger_op Map.empty
     [Register \<lparr>user_id = 42, full_name = ascii ''hussar'', to_dict = [(''id'', ''42'')]\<rparr> 1,
      RecordMiss 42 2, RecordDeath 42 960 3] 42
   = Some \<lparr>meta = [(''id'', ''42'')], shot_counter = 2, miss_counter = 1, dead_counter = 1,
            total_time_in_club = 57600, first_shot = 1, last_shot = 3\<rparr>
   \<and> counters_agree \<lparr>meta = [(''id'', ''42'')], shot_counter = 2, miss_counter = 1, dead_counter = 1,
            total_time_in_club = 57600, first_shot = 1, last_shot = 3\<rparr>"
proof -
  let ?ops = "[Register \<lparr>user_id = 42, full_name = ascii ''hussar'', to_dict = [(''id'', ''42'')]\<rparr> 1,
      RecordMiss 42 2, RecordDeath 42 960 3]"
  let ?h = "\<lparr>meta = [(''id'', ''42'')], shot_counter = 2, miss_counter = 1, dead_counter = 1,
            total_time_in_club = 57600, first_shot = 1, last_shot = 3\<rparr>"
  have "?h \<in> ran (foldl apply_ledger_op Map.empty ?ops)"
    using ledger_run by (rule ranI)
  moreover have "\<forall>h \<in> ran (foldl apply_ledger_op Map.empty ?ops). counters_agree h"
    using ledger_counters_agree [of Map.empty ?ops] by blast
  ultimately have "counters_agree ?h"
    by blast
  then show ?thesis
    using ledger_run by blast
qed

text \<open>
  C9. On the document of a registered player, \<open>DB_miss\<close> changes the shots, the
  misses and the time of the last shot and nothing else: deaths, time in the club,
  time of the first shot and the stored profile stay. \<open>DB_dead\<close> changes the shots,
  the deaths, the time in the club and the time of the last shot and nothing else:
  misses, time of the first shot and the profile stay. No other document is touched.
\<close>

theorem ledger_frame:
  "cl uid = Some h \<longrightarrow>
     (\<exists>h'. DB_miss uid now cl uid = Some h'
        \<and> dead_counter h' = dead_counter h
        \<and> total_time_in_club h' = total_time_in_club h
        \<and> first_shot h' = first_shot h
        \<and> meta h' = meta h)
     \<and> (\<exists>h'. DB_dead uid mute_min now cl uid = Some h'
        \<and> miss_counter h' = miss_counter h
        \<and> first_shot h' = first_shot h
        \<and> meta h' = meta h)
     \<and> DB_miss uid now cl =
         cl(uid \<mapsto> h\<lparr>shot_counter := shot_counter h + 1, miss_counter := miss_counter h + 1,
                       last_shot := now\<rparr>)
     \<and> DB_dead uid mute_min now cl =
         cl(uid \<mapsto> h\<lparr>shot_counter := shot_counter h + 1, dead_counter := dead_counter h + 1,
                       total_time_in_club := total_time_in_club h + mute_min * 60,
                       last_shot := now\<rparr>)
     \<and> (\<forall>u. u \<noteq> uid \<longrightarrow> DB_miss uid now cl u = cl u \<and> DB_dead uid mute_min now cl u = cl u)"
  by (simp add: DB_miss_def DB_dead_def)

theorem ledger_frame_witness:
  "[42 \<mapsto> \<lparr>meta = [(''id'', ''42'')], shot_counter = 2, miss_counter = 1, dead_counter = 1,
            total_time_in_club = 57600, first_shot = 1, last_shot = 3\<rparr>] (42::int)
     = Some \<lparr>meta = [(''id'', ''42'')], shot_counter = 2, miss_counter = 1, dead_counter = 1,
            total_time_in_club = 57600, first_shot = 1, last_shot = 3\<rparr>
   \<and> DB_miss 42 9
       [42 \<mapsto> \<lparr>meta = [(''id'', ''42'')], shot_counter = 2, miss_counter = 1, dead_counter = 1,
            total_time_in_club = 57600, first_shot = 1, last_shot = 3\<rparr>] 42
     = Some \<lparr>meta = [(''id'', ''42'')], shot_counter = 3, miss_counter = 2, dead_counter = 1,
            total_time_in_club = 57600, first_shot = 1, last_shot = 9\<rparr>
   \<and> DB_dead 42 1920 9
       [42 \<mapsto> \<lparr>meta = [(''id'', ''42'')], shot_counter = 2, miss_counter = 1, dead_counter = 1,
            total_time_in_club = 57600, first_shot = 1, last_shot = 3\<rparr>] 42
     = Some \<lparr>meta = [(''id'', ''42'')], shot_counter = 3, miss_counter = 1, dead_counter = 2,
            total_time_in_club = 172800, first_shot = 1, last_shot = 9\<rparr>"
  using ledger_frame [of "[42 \<mapsto> \<lparr>meta = [(''id'', ''42'')], shot_counter = 2, miss_counter = 1,
            dead_counter = 1, total_time_in_club = 57600, first_shot = 1, last_shot = 3\<rparr>]" 42
          "\<lparr>meta = [(''id'', ''42'')], shot_counter = 2, miss_counter = 1,
            dead_counter = 1, total_time_in_club = 57600, first_shot = 1, last_shot = 3\<rparr>" 9 1920]
  by simp

subsection \<open>The handler\<close>

lemma shot_total:
  assumes nb: "1 \<le> nb"
  shows "\<exists>fate sr w1. shot nb c w = (Inr (fate, sr), w1) \<and> coll w1 = coll w \<and> outbox w1 = outbox w"
proof (cases "chat_data w c = None \<or> chat_data w c = Some []")
  case True
  have ne: "one_bullet (nat nb) (next_lucky nb w) \<noteq> []"
    using nb by (simp add: one_bullet_not_Nil)
  show ?thesis
    by (simp add: shot_reload_first [OF nb True] shot_nonempty [OF nb _ ne])
next
  case False
  then obtain b where b: "chat_data w c = Some b" "b \<noteq> []"
    by auto
  show ?thesis
    by (simp add: shot_nonempty [OF nb b])
qed

lemma digits_96: "digits 96 = [57, 54]"
  by simp

lemma get_miss_string_last:
  "get_miss_string NUM_BULLETS 1 =
     Inr ([128561, 128299] @ ascii '' MISS! Barrel: ''
          @ [128280, 128280, 128280, 128280, 128280, 9898, 65039]
          @ ascii '', 96h'')"
  by (simp add: get_miss_string_def list_getitem_def norm_index_def Let_def NUM_BULLETS_def
        list_repeat_def get_mute_minutes_def MUTE_MINUTES_def str_of_int_def ascii_def
        replicate_5 digits_96 del: digits.simps)

text \<open>
  C6, as the code has it. \<open>roll\<close> registers the player only when
  \<open>DB_find\<close> finds no document, so
  the counters of a registered player are never reset. It then fires the revolver of
  the chat. On a hit it computes the penalty from the number of chambers the fire
  reported, announces it, requests the mute for that many minutes and records the
  death with that penalty. On a miss it records the miss and announces it, and no mute
  is requested. The handler returns nothing in either case: there is no flag for the
  death and no penalty of zero in a returned value; what it leaves is the document it
  writes and the actions it requests.
\<close>

theorem roll_fire:
  "let user = effective_user upd; uid = user_id user; chat = effective_chat_id upd;
       cl1 = (case DB_find uid (coll w) of
                Some h \<Rightarrow> coll w
              | None \<Rightarrow> (coll w)(uid \<mapsto>
                  \<lparr>meta = to_dict user, shot_counter = 0, miss_counter = 0, dead_counter = 0,
                   total_time_in_club = 0, first_shot = t_add, last_shot = t_add\<rparr>))
   in (DB_find uid (coll w) \<noteq> None \<longrightarrow> cl1 = coll w) \<and>
      (\<exists>fate sr w1.
        shot NUM_BULLETS chat (w\<lparr>coll := cl1\<rparr>) = (Inr (fate, sr), w1)
        \<and> (fate \<longrightarrow>
             roll NUM_BULLETS upd t_add t_shot w =
               (Inr (),
                w1\<lparr>outbox := outbox w @
                      [SendMessage chat
                         ([128165] @ ascii '' boom! '' @ full_name user @ ascii '' '' @ [128565]
                            @ ascii '' ['' @ str_of_int (get_mute_minutes NUM_BULLETS sr div 60)
                            @ ascii ''h mute]''),
                       MuteUser chat uid (get_mute_minutes NUM_BULLETS sr)],
                    coll := DB_dead uid (get_mute_minutes NUM_BULLETS sr) t_shot cl1\<rparr>))
        \<and> (\<not> fate \<longrightarrow>
             roll NUM_BULLETS upd t_add t_shot w =
               (case get_miss_string NUM_BULLETS sr of
                  Inl e \<Rightarrow> (Inl e, w1\<lparr>coll := DB_miss uid t_shot cl1\<rparr>)
                | Inr s \<Rightarrow>
                    (Inr (),
                     w1\<lparr>outbox := outbox w @ [SendMessage chat (full_name user @ ascii '': '' @ s)],
                         coll := DB_miss uid t_shot cl1\<rparr>))))"
proof -
  have nb: "1 \<le> NUM_BULLETS"
    by (simp add: NUM_BULLETS_def)
  let ?uid = "user_id (effective_user upd)"
  let ?z = "\<lparr>meta = to_dict (effective_user upd), shot_counter = 0, miss_counter = 0,
             dead_counter = 0, total_time_in_club = 0, first_shot = t_add, last_shot = t_add\<rparr>"
  let ?cl1 = "case DB_find ?uid (coll w) of Some h \<Rightarrow> coll w | None \<Rightarrow> (coll w)(?uid \<mapsto> ?z)"
  have reg: "(case DB_find ?uid (coll w) of
                 Some _ \<Rightarrow> Inr (coll w)
               | None \<Rightarrow> DB_add (effective_user upd) t_add (coll w)) = Inr ?cl1"
    by (simp add: DB_find_def DB_add_def split: option.splits)
  obtain fate sr w1 where s: "shot NUM_BULLETS (effective_chat_id upd) (w\<lparr>coll := ?cl1\<rparr>) = (Inr (fate, sr), w1)"
    and c: "coll w1 = ?cl1" and ob: "outbox w1 = outbox w"
    using shot_total [OF nb, of "effective_chat_id upd" "w\<lparr>coll := ?cl1\<rparr>"] by auto
  have "roll NUM_BULLETS upd t_add t_shot w =
      (if fate
       then (Inr (),
                w1\<lparr>outbox := outbox w @
                      [SendMessage (effective_chat_id upd)
                         ([128165] @ ascii '' boom! '' @ full_name (effective_user upd) @ ascii '' '' @ [128565]
                            @ ascii '' ['' @ str_of_int (get_mute_minutes NUM_BULLETS sr div 60)
                            @ ascii ''h mute]''),
                       MuteUser (effective_chat_id upd) ?uid (get_mute_minutes NUM_BULLETS sr)],
                    coll := DB_dead ?uid (get_mute_minutes NUM_BULLETS sr) t_shot ?cl1\<rparr>)
       else (case get_miss_string NUM_BULLETS sr of
                  Inl e \<Rightarrow> (Inl e, w1\<lparr>coll := DB_miss ?uid t_shot ?cl1\<rparr>)
                | Inr s \<Rightarrow>
                    (Inr (),
                     w1\<lparr>outbox := outbox w @ [SendMessage (effective_chat_id upd) (full_name (effective_user upd) @ ascii '': '' @ s)],
                         coll := DB_miss ?uid t_shot ?cl1\<rparr>)))"
    unfolding roll_def Let_def reg sum.case s prod.case
    by (simp add: send_message_def mute_user_for_time_def c ob split: sum.splits)
  then have "\<exists>fate sr w1.
        shot NUM_BULLETS (effective_chat_id upd) (w\<lparr>coll := ?cl1\<rparr>) = (Inr (fate, sr), w1)
        \<and> (fate \<longrightarrow>
             roll NUM_BULLETS upd t_add t_shot w =
               (Inr (),
                w1\<lparr>outbox := outbox w @
                      [SendMessage (effective_chat_id upd)
                         ([128165] @ ascii '' boom! '' @ full_name (effective_user upd) @ ascii '' '' @ [128565]
                            @ ascii '' ['' @ str_of_int (get_mute_minutes NUM_BULLETS sr div 60)
                            @ ascii ''h mute]''),
                       MuteUser (effective_chat_id upd) ?uid (get_mute_minutes NUM_BULLETS sr)],
                    coll := DB_dead ?uid (get_mute_minutes NUM_BULLETS sr) t_shot ?cl1\<rparr>))
        \<and> (\<not> fate \<longrightarrow>
             roll NUM_BULLETS upd t_add t_shot w =
               (case get_miss_string NUM_BULLETS sr of
                  Inl e \<Rightarrow> (Inl e, w1\<lparr>coll := DB_miss ?uid t_shot ?cl1\<rparr>)
                | Inr s \<Rightarrow>
                    (Inr (),
                     w1\<lparr>outbox := outbox w @ [SendMessage (effective_chat_id upd) (full_name (effective_user upd) @ ascii '': '' @ s)],
                         coll := DB_miss ?uid t_shot ?cl1\<rparr>)))"
    using s by (intro exI [of _ fate] exI [of _ sr] exI [of _ w1]) simp
  moreover have "DB_find ?uid (coll w) \<noteq> None \<longrightarrow> ?cl1 = coll w"
    by (simp split: option.splits)
  ultimately show ?thesis
    unfolding Let_def by (rule conjI [rotated])
qed


theorem roll_fire_witness:
  "DB_find 42 (coll duel_world) = Some veteran
   \<and> fst (roll NUM_BULLETS veteran_update 8 9 duel_world) = Inr ()
   \<and> coll (snd (roll NUM_BULLETS veteran_update 8 9 duel_world)) 42
       = Some \<lparr>meta = [(''id'', ''42'')], shot_counter = 3, miss_counter = 1, dead_counter = 2,
               total_time_in_club = 345600, first_shot = 1, last_shot = 9\<rparr>
   \<and> last (outbox (snd (roll NUM_BULLETS veteran_update 8 9 duel_world))) = MuteUser 7 42 4800"
proof -
  have nb: "1 \<le> NUM_BULLETS"
    by (simp add: NUM_BULLETS_def)
  have c: "chat_data duel_world 7 = Some [False, True]"
    by (simp add: duel_world_def)
  have s: "shot NUM_BULLETS 7 duel_world =
      (Inr (True, 1),
       duel_world\<lparr>draws := 1, chat_data := [7 \<mapsto> one_bullet 6 0]\<rparr>)"
    using shot_nonempty [OF nb c]
    by (simp add: duel_world_def next_lucky_def NUM_BULLETS_def)
  have f: "DB_find 42 (coll duel_world) = Some veteran"
    and same: "duel_world\<lparr>coll := coll duel_world\<rparr> = duel_world"
    and u: "user_id (effective_user veteran_update) = 42" "effective_chat_id veteran_update = 7"
    by (simp_all add: DB_find_def duel_world_def veteran_update_def)
  have p: "get_mute_minutes NUM_BULLETS 1 = 4800"
    by (simp add: get_mute_minutes_def NUM_BULLETS_def MUTE_MINUTES_def)
  have d: "DB_dead 42 4800 9 (coll duel_world) 42 = Some \<lparr>meta = [(''id'', ''42'')], shot_counter = 3,
      miss_counter = 1, dead_counter = 2, total_time_in_club = 345600, first_shot = 1, last_shot = 9\<rparr>"
    by (simp add: DB_dead_def duel_world_def veteran_def)
  have "\<exists>msg. roll NUM_BULLETS veteran_update 8 9 duel_world =
      (Inr (),
       duel_world\<lparr>draws := 1, chat_data := [7 \<mapsto> one_bullet 6 0],
                  outbox := outbox duel_world @ [SendMessage 7 msg, MuteUser 7 42 4800],
                  coll := DB_dead 42 4800 9 (coll duel_world)\<rparr>)"
    using roll_fire [of veteran_update duel_world 8 9]
    by (auto simp: Let_def u f same s p)
  then show ?thesis
    using d f by auto
qed

text \<open>
  C6 as stated fails: on a miss \<open>roll\<close> returns nothing, so neither a flag for the
  death nor a penalty of zero is returned, and the only duration it puts out is the one
  in the message, here 96 hours.
\<close>

theorem roll_returns_nothing:
  "shot NUM_BULLETS 7 (duel_world\<lparr>chat_data := [7 \<mapsto> [True, False]]\<rparr>)
     = (Inr (False, 1), duel_world\<lparr>chat_data := [7 \<mapsto> [True]]\<rparr>)
   \<and> fst (roll NUM_BULLETS veteran_update 8 9 (duel_world\<lparr>chat_data := [7 \<mapsto> [True, False]]\<rparr>))
     = Inr ()
   \<and> outbox (snd (roll NUM_BULLETS veteran_update 8 9 (duel_world\<lparr>chat_data := [7 \<mapsto> [True, False]]\<rparr>)))
     = [SendMessage 7
         (ascii ''hussar: '' @ [128561, 128299] @ ascii '' MISS! Barrel: ''
          @ [128280, 128280, 128280, 128280, 128280, 9898, 65039] @ ascii '', 96h'')]
   \<and> get_mute_minutes NUM_BULLETS 0 div 60 = 96"
proof -
  let ?w = "duel_world\<lparr>chat_data := [7 \<mapsto> [True, False]]\<rparr>"
  have nb: "1 \<le> NUM_BULLETS"
    by (simp add: NUM_BULLETS_def)
  have c: "chat_data ?w 7 = Some [True, False]"
    by simp
  have s: "shot NUM_BULLETS 7 ?w = (Inr (False, 1), duel_world\<lparr>chat_data := [7 \<mapsto> [True]]\<rparr>)"
    using shot_nonempty [OF nb c] by simp
  have f: "DB_find (user_id (effective_user veteran_update)) (coll ?w) = Some veteran"
    and same: "?w\<lparr>coll := coll ?w\<rparr> = ?w"
    and u: "effective_chat_id veteran_update = 7"
      "full_name (effective_user veteran_update) = ascii ''hussar''"
    and o: "outbox duel_world = []"
    by (simp_all add: DB_find_def duel_world_def veteran_update_def)
  have r: "roll NUM_BULLETS veteran_update 8 9 ?w =
      (Inr (),
       send_message 7
         (ascii ''hussar'' @ ascii '': '' @ [128561, 128299] @ ascii '' MISS! Barrel: ''
          @ [128280, 128280, 128280, 128280, 128280, 9898, 65039] @ ascii '', 96h'')
         (duel_world\<lparr>chat_data := [7 \<mapsto> [True]],
            coll := DB_miss (user_id (effective_user veteran_update)) 9
                      (coll (duel_world\<lparr>chat_data := [7 \<mapsto> [True]]\<rparr>))\<rparr>))"
    unfolding roll_def Let_def f option.case sum.case same u s prod.case get_miss_string_last
    by simp
  have p: "get_mute_minutes NUM_BULLETS 0 div 60 = 96"
    by (simp add: get_mute_minutes_def NUM_BULLETS_def MUTE_MINUTES_def)
  show ?thesis
    unfolding r by (simp add: s send_message_def o p ascii_def)
qed

subsection \<open>Concurrent handlers\<close>

text \<open>
  C8, as the code has it. There is one lock for all chats. Take two fires, in any two
  chats, both about to acquire the free lock. The first acquires it; from then on the
  second cannot move, whatever its chat; when the first has run the body and released
  the lock, the second acquires it.
\<close>

theorem one_lock_for_all_chats:
  "pc ta = AtAcquire \<and> pc tb = AtAcquire \<and> \<not> lock_held s \<longrightarrow>
     step_shot NUM_BULLETS ta s = Some (ta\<lparr>pc := Holding\<rparr>, s\<lparr>lock_held := True\<rparr>)
     \<and> step_shot NUM_BULLETS tb (s\<lparr>lock_held := True\<rparr>) = None
     \<and> (\<exists>r w'.
           shot NUM_BULLETS (thread_chat ta) (shared s) = (Inr r, w')
           \<and> step_shot NUM_BULLETS (ta\<lparr>pc := Holding\<rparr>) (s\<lparr>lock_held := True\<rparr>)
               = Some (ta\<lparr>pc := Left (Inr r)\<rparr>, s\<lparr>shared := w', lock_held := False\<rparr>)
           \<and> step_shot NUM_BULLETS tb (s\<lparr>shared := w', lock_held := False\<rparr>)
               = Some (tb\<lparr>pc := Holding\<rparr>, s\<lparr>shared := w', lock_held := True\<rparr>))"
proof (intro impI, elim conjE)
  assume a: "pc ta = AtAcquire" and b: "pc tb = AtAcquire" and f: "\<not> lock_held s"
  have nb: "1 \<le> NUM_BULLETS"
    by (simp add: NUM_BULLETS_def)
  obtain fate sr w' where s: "shot NUM_BULLETS (thread_chat ta) (shared s) = (Inr (fate, sr), w')"
    using shot_total [OF nb, of "thread_chat ta" "shared s"] by blast
  show "step_shot NUM_BULLETS ta s = Some (ta\<lparr>pc := Holding\<rparr>, s\<lparr>lock_held := True\<rparr>)
     \<and> step_shot NUM_BULLETS tb (s\<lparr>lock_held := True\<rparr>) = None
     \<and> (\<exists>r w'.
           shot NUM_BULLETS (thread_chat ta) (shared s) = (Inr r, w')
           \<and> step_shot NUM_BULLETS (ta\<lparr>pc := Holding\<rparr>) (s\<lparr>lock_held := True\<rparr>)
               = Some (ta\<lparr>pc := Left (Inr r)\<rparr>, s\<lparr>shared := w', lock_held := False\<rparr>)
           \<and> step_shot NUM_BULLETS tb (s\<lparr>shared := w', lock_held := False\<rparr>)
               = Some (tb\<lparr>pc := Holding\<rparr>, s\<lparr>shared := w', lock_held := True\<rparr>))"
    using a b f s by (simp add: step_shot_def)
qed

theorem one_lock_for_all_chats_witness:
  "pc \<lparr>thread_chat = 1, pc = AtAcquire\<rparr> = AtAcquire
   \<and> pc \<lparr>thread_chat = 2, pc = AtAcquire\<rparr> = AtAcquire
   \<and> \<not> lock_held \<lparr>shared = fresh_world, lock_held = False\<rparr>
   \<and> step_shot NUM_BULLETS \<lparr>thread_chat = 1, pc = AtAcquire\<rparr> \<lparr>shared = fresh_world, lock_held = False\<rparr>
       = Some (\<lparr>thread_chat = 1, pc = Holding\<rparr>, \<lparr>shared = fresh_world, lock_held = True\<rparr>)
   \<and> step_shot NUM_BULLETS \<lparr>thread_chat = 2, pc = AtAcquire\<rparr> \<lparr>shared = fresh_world, lock_held = True\<rparr>
       = None"
  using one_lock_for_all_chats [of "\<lparr>thread_chat = 1, pc = AtAcquire\<rparr>"
      "\<lparr>thread_chat = 2, pc = AtAcquire\<rparr>" "\<lparr>shared = fresh_world, lock_held = False\<rparr>"]
  by simp

text \<open>
  C8 as stated fails: while a fire in chat 1 holds the lock, a fire in chat 2 blocks.
\<close>

theorem fire_blocks_across_chats:
  "step_shot NUM_BULLETS \<lparr>thread_chat = 1, pc = AtAcquire\<rparr> \<lparr>shared = fresh_world, lock_held = False\<rparr>
     = Some (\<lparr>thread_chat = 1, pc = Holding\<rparr>, \<lparr>shared = fresh_world, lock_held = True\<rparr>)
   \<and> (1::int) \<noteq> 2
   \<and> step_shot NUM_BULLETS \<lparr>thread_chat = 2, pc = AtAcquire\<rparr> \<lparr>shared = fresh_world, lock_held = True\<rparr>
     = None"
  by (simp add: step_shot_def)

end
